theory Spec2Isabelle
  imports Complex_Main
begin

section \<open>JavaScript numbers\<close>

text \<open>
  A JavaScript Number is modelled as a real number or one of the three non-finite values.
  Finite arithmetic is exact (no rounding, no overflow, no signed zero): the theorems below
  are about the arithmetic the code writes down, not about IEEE-754 rounding. The operations
  follow ECMAScript on the non-finite values.
\<close>

datatype jsnum = Fin real | PInf | NInf | NaN

text \<open>The values a caller can pass where a number is expected: \<open>undefined\<close>, \<open>null\<close> or a Number.\<close>

datatype jsval = Undefined | Null | Num jsnum

fun js_lt :: "jsnum \<Rightarrow> jsnum \<Rightarrow> bool" where
  "js_lt NaN _ = False"
| "js_lt _ NaN = False"
| "js_lt (Fin a) (Fin b) = (a < b)"
| "js_lt (Fin a) PInf = True"
| "js_lt (Fin a) NInf = False"
| "js_lt PInf _ = False"
| "js_lt NInf NInf = False"
| "js_lt NInf _ = True"

fun js_le :: "jsnum \<Rightarrow> jsnum \<Rightarrow> bool" where
  "js_le NaN _ = False"
| "js_le _ NaN = False"
| "js_le (Fin a) (Fin b) = (a \<le> b)"
| "js_le (Fin a) PInf = True"
| "js_le (Fin a) NInf = False"
| "js_le PInf PInf = True"
| "js_le PInf _ = False"
| "js_le NInf _ = True"

definition js_gt :: "jsnum \<Rightarrow> jsnum \<Rightarrow> bool" where
  "js_gt a b = js_lt b a"

fun js_neg :: "jsnum \<Rightarrow> jsnum" where
  "js_neg (Fin a) = Fin (- a)"
| "js_neg PInf = NInf"
| "js_neg NInf = PInf"
| "js_neg NaN = NaN"

fun js_add :: "jsnum \<Rightarrow> jsnum \<Rightarrow> jsnum" where
  "js_add NaN _ = NaN"
| "js_add _ NaN = NaN"
| "js_add (Fin a) (Fin b) = Fin (a + b)"
| "js_add PInf NInf = NaN"
| "js_add NInf PInf = NaN"
| "js_add PInf _ = PInf"
| "js_add _ PInf = PInf"
| "js_add NInf _ = NInf"
| "js_add _ NInf = NInf"

definition js_sub :: "jsnum \<Rightarrow> jsnum \<Rightarrow> jsnum" where
  "js_sub a b = js_add a (js_neg b)"

text \<open>The sign of a number that is not NaN: the product and quotient rules for infinities use it.\<close>

fun js_sign :: "jsnum \<Rightarrow> int" where
  "js_sign (Fin a) = (if a < 0 then -1 else if a = 0 then 0 else 1)"
| "js_sign PInf = 1"
| "js_sign NInf = -1"
| "js_sign NaN = 0"

definition inf_of_sign :: "int \<Rightarrow> jsnum" where
  "inf_of_sign s = (if s = 0 then NaN else if s < 0 then NInf else PInf)"

fun js_mul :: "jsnum \<Rightarrow> jsnum \<Rightarrow> jsnum" where
  "js_mul NaN _ = NaN"
| "js_mul _ NaN = NaN"
| "js_mul (Fin a) (Fin b) = Fin (a * b)"
| "js_mul a b = inf_of_sign (js_sign a * js_sign b)"

text \<open>
  Division: a finite non-zero number over zero is an infinity of the numerator's sign
  (the zero is taken as \<open>+0\<close>), \<open>0/0\<close> and \<open>\<infinity>/\<infinity>\<close> are NaN, finite over infinite is 0.
\<close>

fun js_div :: "jsnum \<Rightarrow> jsnum \<Rightarrow> jsnum" where
  "js_div NaN _ = NaN"
| "js_div _ NaN = NaN"
| "js_div (Fin a) (Fin b) = (if b = 0 then inf_of_sign (js_sign (Fin a)) else Fin (a / b))"
| "js_div (Fin a) _ = Fin 0"
| "js_div a (Fin b) = inf_of_sign (js_sign a * (if b < 0 then -1 else 1))"
| "js_div _ _ = NaN"


text \<open>\<open>Math.round\<close> rounds to the nearest integer, a half towards \<open>+\<infinity>\<close>.\<close>

fun js_round :: "jsnum \<Rightarrow> jsnum" where
  "js_round (Fin a) = Fin (of_int \<lfloor>a + 1 / 2\<rfloor>)"
| "js_round x = x"

fun js_floor :: "jsnum \<Rightarrow> jsnum" where
  "js_floor (Fin a) = Fin (of_int \<lfloor>a\<rfloor>)"
| "js_floor x = x"

fun js_sqrt :: "jsnum \<Rightarrow> jsnum" where
  "js_sqrt (Fin a) = (if a < 0 then NaN else Fin (sqrt a))"
| "js_sqrt PInf = PInf"
| "js_sqrt _ = NaN"

text \<open>\<open>Math.log2\<close> and \<open>Math.log10\<close>: \<open>-\<infinity>\<close> at zero, NaN below it.\<close>

definition js_log :: "real \<Rightarrow> jsnum \<Rightarrow> jsnum" where
  "js_log b x = (case x of
       Fin a \<Rightarrow> (if a < 0 then NaN else if a = 0 then NInf else Fin (log b a))
     | PInf \<Rightarrow> PInf
     | _ \<Rightarrow> NaN)"

definition js_log2 :: "jsnum \<Rightarrow> jsnum" where
  "js_log2 = js_log 2"

definition js_log10 :: "jsnum \<Rightarrow> jsnum" where
  "js_log10 = js_log 10"

text \<open>The remainder operator \<open>%\<close>: the quotient is truncated towards zero, so the result
  has the sign of the dividend.\<close>

definition trunc :: "real \<Rightarrow> int" where
  "trunc x = (if x < 0 then \<lceil>x\<rceil> else \<lfloor>x\<rfloor>)"

fun js_rem :: "jsnum \<Rightarrow> jsnum \<Rightarrow> jsnum" where
  "js_rem (Fin a) (Fin b) = (if b = 0 then NaN else Fin (a - b * of_int (trunc (a / b))))"
| "js_rem (Fin a) PInf = Fin a"
| "js_rem (Fin a) NInf = Fin a"
| "js_rem _ _ = NaN"


text \<open>Truthiness of a value: \<open>undefined\<close>, \<open>null\<close>, NaN and 0 are falsy.\<close>

fun js_truthy :: "jsval \<Rightarrow> bool" where
  "js_truthy Undefined = False"
| "js_truthy Null = False"
| "js_truthy (Num NaN) = False"
| "js_truthy (Num (Fin a)) = (a \<noteq> 0)"
| "js_truthy (Num _) = True"

text \<open>Conversion to a Number in a comparison or in arithmetic.\<close>

fun js_toNumber :: "jsval \<Rightarrow> jsnum" where
  "js_toNumber Undefined = NaN"
| "js_toNumber Null = Fin 0"
| "js_toNumber (Num x) = x"

text \<open>Reading an array at a Number: \<open>undefined\<close> unless the number is an index of the array.\<close>

fun js_index :: "'a list \<Rightarrow> jsnum \<Rightarrow> 'a option" where
  "js_index xs (Fin a) =
     (if a = of_int \<lfloor>a\<rfloor> \<and> 0 \<le> a \<and> nat \<lfloor>a\<rfloor> < length xs then Some (xs ! nat \<lfloor>a\<rfloor>) else None)"
| "js_index xs _ = None"


section \<open>NoteMapper (client/src/data/chords.js)\<close>

definition NOTE_NAMES :: "string list" where
  "NOTE_NAMES = [''C'', ''C#'', ''D'', ''D#'', ''E'', ''F'', ''F#'', ''G'', ''G#'', ''A'', ''A#'', ''B'']"


text \<open>The object \<open>frequencyToNote\<close> returns, \<open>{note, octave, cents, freq}\<close>; the note is
  \<open>None\<close> when the array read is \<open>undefined\<close>.\<close>

record note_reading =
  rd_note :: "string option"
  rd_octave :: jsnum
  rd_cents :: jsnum
  rd_freq :: jsval

definition frequencyToNote :: "jsval \<Rightarrow> note_reading option" where
  "frequencyToNote fq =
     (if \<not> js_truthy fq \<or> js_le (js_toNumber fq) (Fin 0) then None
      else
        let f = js_toNumber fq;
            semitones = js_mul (Fin 12) (js_log2 (js_div f (Fin 440)));
            roundedSemitones = js_round semitones;
            cents = js_round (js_mul (js_sub semitones roundedSemitones) (Fin 100));
            noteIndex = js_rem (js_add (js_add (js_rem roundedSemitones (Fin 12)) (Fin 12)) (Fin 9)) (Fin 12);
            octave = js_add (js_floor (js_div (js_add roundedSemitones (Fin 9)) (Fin 12))) (Fin 4)
        in Some \<lparr> rd_note = js_index NOTE_NAMES noteIndex, rd_octave = octave,
                   rd_cents = cents, rd_freq = fq \<rparr>)"

section \<open>TuningEvaluator\<close>

subsection \<open>Tuning zone (TuningMeter component)\<close>

datatype tuning_zone = Inactive | InTune | Close | Off

definition IN_TUNE_THRESHOLD :: real where
  "IN_TUNE_THRESHOLD = 5"

definition CLOSE_THRESHOLD :: real where
  "CLOSE_THRESHOLD = 15"

text \<open>
  \<open>tuningStatus\<close> depends on the three props \<open>cents\<close>, \<open>isActive\<close> and \<open>note\<close> (the displayed
  reading, or \<open>null\<close>). The strings \<open>"inactive"\<close>, \<open>"in-tune"\<close>, \<open>"close"\<close> and \<open>"off"\<close> are the
  four constructors.
\<close>

definition tuningStatus :: "real \<Rightarrow> bool \<Rightarrow> note_reading option \<Rightarrow> tuning_zone" where
  "tuningStatus cents isActive noteProp =
     (if \<not> isActive \<or> noteProp = None then Inactive
      else let absCents = \<bar>cents\<bar> in
        if absCents \<le> IN_TUNE_THRESHOLD then InTune
        else if absCents \<le> CLOSE_THRESHOLD then Close
        else Off)"

subsection \<open>Nearest string (StringDisplay component)\<close>









section \<open>PitchDetector (usePitch hook)\<close>

definition CLARITY_THRESHOLD :: real where
  "CLARITY_THRESHOLD = 85 / 100"

definition VOLUME_THRESHOLD :: real where
  "VOLUME_THRESHOLD = - 40"

text \<open>
  A frame is the content of the \<open>Float32Array\<close> that \<open>getFloatTimeDomainData\<close> fills; its
  length is \<open>bufferLength\<close>. Step 1: the RMS loop and the level in dBFS.
\<close>

definition frame_rms :: "real list \<Rightarrow> jsnum" where
  "frame_rms buffer =
     js_sqrt (js_div (Fin (foldl (\<lambda>rms x. rms + x * x) 0 buffer)) (Fin (of_nat (length buffer))))"

definition frame_dbFS :: "real list \<Rightarrow> jsnum" where
  "frame_dbFS buffer = js_mul (Fin 20) (js_log10 (frame_rms buffer))"

text \<open>\<open>audioContext.current?.sampleRate || 44100\<close>: a missing context or a falsy rate gives 44100.\<close>

definition sampleRate_of :: "real option \<Rightarrow> real" where
  "sampleRate_of ctx = (case ctx of None \<Rightarrow> 44100 | Some r \<Rightarrow> if r = 0 then 44100 else r)"

text \<open>Step 2: the inner loop over \<open>i\<close>, for one lag, on \<open>(correlation, norm1, norm2)\<close>.\<close>

definition lag_sums :: "real list \<Rightarrow> nat \<Rightarrow> real \<times> real \<times> real" where
  "lag_sums buffer lag =
     foldl (\<lambda>(correlation, norm1, norm2) i.
              (correlation + buffer ! i * buffer ! (i + lag),
               norm1 + buffer ! i * buffer ! i,
               norm2 + buffer ! (i + lag) * buffer ! (i + lag)))
       (0, 0, 0) [0 ..< length buffer - lag]"

definition lag_correlation :: "real list \<Rightarrow> nat \<Rightarrow> real" where
  "lag_correlation buffer lag =
     (case lag_sums buffer lag of (correlation, norm1, norm2) \<Rightarrow>
        let normFactor = sqrt (norm1 * norm2)
        in if normFactor > 0 then correlation / normFactor else correlation)"

text \<open>The body of the loop over \<open>lag\<close>, on \<open>(correlations, bestCorrelation, bestPeriod)\<close>.\<close>

definition lag_step :: "real list \<Rightarrow> real list \<times> real \<times> nat \<Rightarrow> nat \<Rightarrow> real list \<times> real \<times> nat" where
  "lag_step buffer st lag =
     (case st of (correlations, bestCorrelation, bestPeriod) \<Rightarrow>
        let correlation = lag_correlation buffer lag;
            correlations' = correlations[lag := correlation]
        in if correlation > bestCorrelation then (correlations', correlation, lag)
           else (correlations', bestCorrelation, bestPeriod))"

definition minPeriod_of :: "real \<Rightarrow> nat" where
  "minPeriod_of sampleRate = nat \<lfloor>sampleRate / 1400\<rfloor>"

definition maxPeriod_of :: "real \<Rightarrow> nat" where
  "maxPeriod_of sampleRate = nat \<lfloor>sampleRate / 70\<rfloor>"

text \<open>The loop \<open>for (lag = minPeriod; lag < maxPeriod && lag < bufferLength; lag++)\<close>.\<close>

definition autocorrelate :: "real list \<Rightarrow> real \<Rightarrow> real list \<times> real \<times> nat" where
  "autocorrelate buffer sampleRate =
     foldl (lag_step buffer) (replicate (length buffer) 0, - 1, 0)
       [minPeriod_of sampleRate ..< min (maxPeriod_of sampleRate) (length buffer)]"

text \<open>
  Step 3: parabolic interpolation. Both neighbours of \<open>bestPeriod\<close> are inside the array under
  the guard, and \<open>|| 0\<close> leaves a number that is not NaN as it is.
\<close>

definition refinePeriod :: "nat \<Rightarrow> real list \<Rightarrow> nat \<Rightarrow> real" where
  "refinePeriod bufferLength correlations bestPeriod =
     (if bestPeriod > 0 \<and> int bestPeriod < int bufferLength - 1 then
        let y0 = correlations ! (bestPeriod - 1);
            y1 = correlations ! bestPeriod;
            y2 = correlations ! (bestPeriod + 1);
            shift = js_div (Fin (y0 - y2)) (Fin (2 * (y0 - 2 * y1 + y2)))
        in (case shift of Fin sh \<Rightarrow> of_nat bestPeriod + sh | _ \<Rightarrow> of_nat bestPeriod)
      else of_nat bestPeriod)"

definition frame_bestCorrelation :: "real list \<Rightarrow> real \<Rightarrow> real" where
  "frame_bestCorrelation buffer sampleRate = fst (snd (autocorrelate buffer sampleRate))"

text \<open>Step 4: \<open>frequency = sampleRate / refinedPeriod\<close>.\<close>

definition frame_frequency :: "real list \<Rightarrow> real \<Rightarrow> jsnum" where
  "frame_frequency buffer sampleRate =
     (case autocorrelate buffer sampleRate of (correlations, bestCorrelation, bestPeriod) \<Rightarrow>
        js_div (Fin sampleRate) (Fin (refinePeriod (length buffer) correlations bestPeriod)))"

text \<open>The three state variables \<open>detectPitch\<close> sets.\<close>

record pitch_state =
  detectedNote :: "note_reading option"
  detectedFreq :: jsval
  clarity :: real

text \<open>
  \<open>detectPitch\<close> on a frame read from the analyser, with the sample rate of the audio
  context when there is one. (Without an analyser the function returns before it reads a
  frame and sets nothing.)
\<close>

definition detectPitch :: "real list \<Rightarrow> real option \<Rightarrow> pitch_state" where
  "detectPitch buffer ctx =
     (if js_lt (frame_dbFS buffer) (Fin VOLUME_THRESHOLD)
      then \<lparr> detectedNote = None, detectedFreq = Null, clarity = 0 \<rparr>
      else
        let sampleRate = sampleRate_of ctx;
            bestCorrelation = frame_bestCorrelation buffer sampleRate;
            frequency = frame_frequency buffer sampleRate
        in if bestCorrelation > CLARITY_THRESHOLD \<and> js_gt frequency (Fin 70) \<and> js_lt frequency (Fin 1400)
           then \<lparr> detectedNote = frequencyToNote (Num frequency), detectedFreq = Num frequency,
                  clarity = bestCorrelation \<rparr>
           else \<lparr> detectedNote = None, detectedFreq = Null, clarity = bestCorrelation \<rparr>)"

section \<open>NoteStabilizer (the smoothing effect of TunerPage)\<close>

text \<open>
  The key \<open>`${detectedNote.note}${detectedNote.octave}`\<close> is a function of the note and the
  octave of the reading, and two readings with a name of \<open>NOTE_NAMES\<close> and an integer octave
  have the same key string exactly when they agree on both; the key is modelled as that pair.
\<close>

type_synonym note_key = "string option \<times> jsnum"

definition noteKey :: "note_reading \<Rightarrow> note_key" where
  "noteKey detected = (rd_note detected, rd_octave detected)"

text \<open>The two callbacks the effect passes to \<open>setTimeout\<close>, with what they capture.\<close>

datatype timeout_callback =
    ClearDisplay
  | ShowIfHeld note_key note_reading jsval

text \<open>
  The state of the page: the three display variables, the two refs, the timeout of the last
  run of the effect (its due time in ms and its callback; the cleanup of that run clears it)
  and the \<open>detectedNote\<close> of the last render, which React compares with the new one to decide
  whether the effect runs again.
\<close>

record tuner =
  displayNote :: "note_reading option"
  displayCents :: jsnum
  displayFreq :: jsval
  lastNoteTime :: nat
  noteHoldBuffer :: "note_key option"
  timeout :: "(nat \<times> timeout_callback) option"
  renderedNote :: "note_reading option"

definition run_callback :: "timeout_callback \<Rightarrow> tuner \<Rightarrow> tuner" where
  "run_callback cb t =
     (case cb of
        ClearDisplay \<Rightarrow> t\<lparr> displayNote := None, displayCents := Fin 0, displayFreq := Null \<rparr>
      | ShowIfHeld noteKey' detectedNote' detectedFreq' \<Rightarrow>
          if noteHoldBuffer t = Some noteKey'
          then t\<lparr> displayNote := Some detectedNote', displayCents := rd_cents detectedNote',
                   displayFreq := detectedFreq' \<rparr>
          else t)"

text \<open>The body of the effect, run at time \<open>now\<close> (\<open>Date.now()\<close>, in ms).\<close>

definition smoothing_effect :: "nat \<Rightarrow> note_reading option \<Rightarrow> jsval \<Rightarrow> tuner \<Rightarrow> tuner" where
  "smoothing_effect now detectedNote' detectedFreq' t =
     (case detectedNote' of
        None \<Rightarrow> t\<lparr> timeout := Some (now + 400, ClearDisplay) \<rparr>
      | Some detected \<Rightarrow>
          if noteHoldBuffer t = Some (noteKey detected)
          then t\<lparr> displayNote := Some detected, displayCents := rd_cents detected,
                   displayFreq := detectedFreq' \<rparr>
          else t\<lparr> noteHoldBuffer := Some (noteKey detected), lastNoteTime := now,
                   timeout := Some (now + 80, ShowIfHeld (noteKey detected) detected detectedFreq') \<rparr>)"

text \<open>The cleanup function each run returns: \<open>clearTimeout\<close> of its own timeout.\<close>

definition smoothing_cleanup :: "tuner \<Rightarrow> tuner" where
  "smoothing_cleanup t = t\<lparr> timeout := None \<rparr>"

text \<open>A timeout that is due and was not cleared runs before anything later happens.\<close>

definition fire_due :: "nat \<Rightarrow> tuner \<Rightarrow> tuner" where
  "fire_due now t =
     (case timeout t of
        Some (due, cb) \<Rightarrow> if due \<le> now then run_callback cb (t\<lparr> timeout := None \<rparr>) else t
      | None \<Rightarrow> t)"

text \<open>
  One update of the pitch state at time \<open>now\<close>: \<open>usePitch\<close> sets \<open>detectedNote\<close> and
  \<open>detectedFreq\<close> (in one render). Every detection is a new object, so the dependencies
  have changed unless the note was \<open>null\<close> and stays \<open>null\<close>; when they have, React runs the
  cleanup of the previous run and then the effect.
\<close>

definition pitch_update :: "tuner \<Rightarrow> nat \<times> note_reading option \<times> jsval \<Rightarrow> tuner" where
  "pitch_update t ev =
     (case ev of (now, detectedNote', detectedFreq') \<Rightarrow>
        let t1 = fire_due now t
        in if detectedNote' = None \<and> renderedNote t1 = None then t1
           else smoothing_effect now detectedNote' detectedFreq'
                  (smoothing_cleanup (t1\<lparr> renderedNote := detectedNote' \<rparr>)))"

text \<open>The page after mounting at time \<open>now\<close>: nothing displayed, and the first run of the effect
  (with no note) has set the 400 ms timeout.\<close>

definition tuner_mounted :: "nat \<Rightarrow> tuner" where
  "tuner_mounted now =
     smoothing_effect now None Null
       \<lparr> displayNote = None, displayCents = Fin 0, displayFreq = Null, lastNoteTime = 0,
         noteHoldBuffer = None, timeout = None, renderedNote = None \<rparr>"

text \<open>The page at time \<open>now\<close>, after a stream of timestamped updates since it was mounted at 0.\<close>

definition tuner_after :: "(nat \<times> note_reading option \<times> jsval) list \<Rightarrow> nat \<Rightarrow> tuner" where
  "tuner_after events now = fire_due now (foldl pitch_update (tuner_mounted 0) events)"

section \<open>MetronomeScheduler (useMetronome hook)\<close>

text \<open>
  A beat the scheduler hands to \<open>playClick\<close>: the value of \<open>beatRef.current\<close>, the downbeat flag
  and the time on the audio clock. (The \<open>setTimeout\<close> that updates the visual indicator
  \<open>currentBeat\<close> is left out.)
\<close>

record beat_event =
  beatIndex :: nat
  isDownbeat :: bool
  scheduledTime :: jsnum

text \<open>
  The loop \<open>while (nextBeatTime < ctx.currentTime + 0.1)\<close> of one call of \<open>scheduler\<close>, on
  \<open>nextBeatTime\<close>, \<open>beatRef.current\<close> and the clicks played so far. \<open>playClick\<close> does nothing
  when \<open>audioContextRef.current\<close> is \<open>null\<close> (\<open>audible\<close> is false). The loop does not end when
  \<open>secondsPerBeat\<close> is negative: the result is then \<open>None\<close>.
\<close>

partial_function (option) scheduler_loop ::
  "real \<Rightarrow> jsnum \<Rightarrow> nat \<Rightarrow> bool \<Rightarrow> jsnum \<Rightarrow> nat \<Rightarrow> beat_event list \<Rightarrow> (jsnum \<times> nat \<times> beat_event list) option"
where
  "scheduler_loop currentTime secondsPerBeat beatsPerMeasure audible nextBeatTime beat played =
     (if js_lt nextBeatTime (Fin (currentTime + 1 / 10))
      then scheduler_loop currentTime secondsPerBeat beatsPerMeasure audible
             (js_add nextBeatTime secondsPerBeat) (Suc beat)
             (if audible
              then played @ [\<lparr> beatIndex = beat,
                                isDownbeat = (beatsPerMeasure \<noteq> 0 \<and> beat mod beatsPerMeasure = 0),
                                scheduledTime = nextBeatTime \<rparr>]
              else played)
      else Some (nextBeatTime, beat, played))"

text \<open>What the function \<open>scheduler\<close> of one call of \<open>start\<close> captures.\<close>

record scheduler_closure =
  sc_ctx :: nat
  sc_secondsPerBeat :: jsnum
  sc_beatsPerMeasure :: nat
  sc_nextBeatTime :: jsnum

text \<open>
  The hook's refs and state, with the browser's side of it: the pending
  \<open>setTimeout(scheduler, 25)\<close> callbacks by timer id, the contexts that were closed, and the
  clicks played. Audio contexts and timers are numbered from one counter, from 1 (a timer id
  is truthy).
\<close>

record metronome =
  audioContextRef :: "nat option"
  timerRef :: "nat option"
  beatRef :: nat
  isPlaying :: bool
  pendingTimers :: "(nat \<times> scheduler_closure) list"
  closedContexts :: "nat list"
  clicks :: "beat_event list"
  nextId :: nat

definition metronome_init :: metronome where
  "metronome_init =
     \<lparr> audioContextRef = None, timerRef = None, beatRef = 0, isPlaying = False,
       pendingTimers = [], closedContexts = [], clicks = [], nextId = 1 \<rparr>"

text \<open>One call of \<open>scheduler\<close>, when the clock of its context reads \<open>currentTime\<close>: the loop, then
  \<open>timerRef.current = setTimeout(scheduler, 25)\<close>.\<close>

definition scheduler :: "scheduler_closure \<Rightarrow> real \<Rightarrow> metronome \<Rightarrow> metronome option" where
  "scheduler c currentTime m =
     (case scheduler_loop currentTime (sc_secondsPerBeat c) (sc_beatsPerMeasure c)
             (audioContextRef m \<noteq> None) (sc_nextBeatTime c) (beatRef m) (clicks m) of
        None \<Rightarrow> None
      | Some (nextBeatTime, beat, played) \<Rightarrow>
          Some (m\<lparr> beatRef := beat, clicks := played,
                   pendingTimers := pendingTimers m @ [(nextId m, c\<lparr> sc_nextBeatTime := nextBeatTime \<rparr>)],
                   timerRef := Some (nextId m),
                   nextId := Suc (nextId m) \<rparr>))"

text \<open>\<open>start()\<close>, with the \<open>bpm\<close> and \<open>beatsPerMeasure\<close> of the render it was created in;
  \<open>currentTime\<close> is what the clock of the new context reads.\<close>

definition start :: "real \<Rightarrow> nat \<Rightarrow> real \<Rightarrow> metronome \<Rightarrow> metronome option" where
  "start bpm beatsPerMeasure currentTime m =
     (let ctx = nextId m;
          m1 = m\<lparr> audioContextRef := Some ctx, beatRef := 0, nextId := Suc (nextId m) \<rparr>;
          secondsPerBeat = js_div (Fin 60) (Fin bpm);
          c = \<lparr> sc_ctx = ctx, sc_secondsPerBeat = secondsPerBeat, sc_beatsPerMeasure = beatsPerMeasure,
                sc_nextBeatTime = Fin (currentTime + 1 / 10) \<rparr>
      in case scheduler c currentTime m1 of
           None \<Rightarrow> None
         | Some m2 \<Rightarrow> Some (m2\<lparr> isPlaying := True \<rparr>))"

definition clearTimeout :: "nat \<Rightarrow> metronome \<Rightarrow> metronome" where
  "clearTimeout t m = m\<lparr> pendingTimers := filter (\<lambda>e. fst e \<noteq> t) (pendingTimers m) \<rparr>"

definition stop :: "metronome \<Rightarrow> metronome" where
  "stop m =
     (let m1 = (case timerRef m of
                  Some t \<Rightarrow> (clearTimeout t m)\<lparr> timerRef := None \<rparr>
                | None \<Rightarrow> m);
          m2 = (case audioContextRef m1 of
                  Some ctx \<Rightarrow> m1\<lparr> closedContexts := closedContexts m1 @ [ctx], audioContextRef := None \<rparr>
                | None \<Rightarrow> m1)
      in m2\<lparr> beatRef := 0, isPlaying := False \<rparr>)"

text \<open>The timer \<open>t\<close> fires: if it is still pending, its \<open>scheduler\<close> runs.\<close>

definition timer_fires :: "nat \<Rightarrow> real \<Rightarrow> metronome \<Rightarrow> metronome option" where
  "timer_fires t currentTime m =
     (case map_of (pendingTimers m) t of
        None \<Rightarrow> Some m
      | Some c \<Rightarrow> scheduler c currentTime (clearTimeout t m))"



section \<open>Notions used to state the properties\<close>





text \<open>
  A stream of detections that changes key at every update, each update less than 80 ms after
  the one before.
\<close>

fun flickering :: "(nat \<times> note_reading option \<times> jsval) list \<Rightarrow> bool" where
  "flickering [] = True"
| "flickering [e] = (fst (snd e) \<noteq> None)"
| "flickering (e1 # e2 # es) =
     (fst (snd e1) \<noteq> None \<and> fst e1 \<le> fst e2 \<and> fst e2 < fst e1 + 80 \<and>
      map_option noteKey (fst (snd e1)) \<noteq> map_option noteKey (fst (snd e2)) \<and>
      flickering (e2 # es))"

text \<open>The state of the page while a new key waits for its 80 ms: nothing displayed, the key
  in the hold buffer since \<open>since\<close>, and the timeout that will show it.\<close>

definition holding :: "tuner \<Rightarrow> nat \<Rightarrow> note_key \<Rightarrow> bool" where
  "holding t since k \<longleftrightarrow>
     displayNote t = None \<and> noteHoldBuffer t = Some k \<and> renderedNote t \<noteq> None \<and>
     (\<exists>d f. timeout t = Some (since + 80, ShowIfHeld k d f))"




text \<open>The reading of 440 Hz, as the unit tests expect it (A4, 0 cents).\<close>

definition reading_A4 :: note_reading where
  "reading_A4 = \<lparr> rd_note = Some ''A'', rd_octave = Fin 4, rd_cents = Fin 0, rd_freq = Num (Fin 440) \<rparr>"

section \<open>Facts about the number model\<close>




section \<open>NoteMapper: the arithmetic of \<open>frequencyToNote\<close>\<close>

lemma trunc_of_int_12: "trunc (of_int a / 12) = (if a < 0 then - ((- a) div 12) else a div 12)"
proof -
  have f: "\<lfloor>(of_int b :: real) / 12\<rfloor> = b div 12" for b :: int
    using floor_divide_of_int_eq [of b 12, where ?'a = real] by simp
  have c: "\<lceil>(of_int a :: real) / 12\<rceil> = - ((- a) div 12)"
    using f [of "- a"] by (simp add: ceiling_def)
  have neg: "((of_int a :: real) / 12 < 0) = (a < 0)" by simp
  show ?thesis unfolding trunc_def neg using f [of a] c by simp
qed

lemma js_rem_int_12: "js_rem (Fin (of_int a)) (Fin 12) = Fin (of_int (if a < 0 then - ((- a) mod 12) else a mod 12))"
proof -
  define q where "q = (if a < 0 then - ((- a) div 12) else a div 12)"
  define m where "m = (if a < 0 then - ((- a) mod 12) else a mod 12)"
  have "a - 12 * q = m"
    unfolding q_def m_def by (simp add: minus_mult_div_eq_mod [symmetric])
  then have "(of_int m :: real) = of_int a - 12 * of_int q"
    by (metis of_int_diff of_int_mult of_int_numeral)
  moreover have "trunc (of_int a / 12) = q"
    unfolding q_def by (rule trunc_of_int_12)
  ultimately have "js_rem (Fin (of_int a)) (Fin 12) = Fin (of_int m)"
    by simp
  then show ?thesis unfolding m_def .
qed

lemma rem_shift_nonneg: "\<not> (if r < 0 then - ((- r) mod 12) else r mod 12) + 21 < (0::int)"
proof (cases "r < 0")
  case True
  have "(- r) mod 12 < 12" by simp
  with True show ?thesis by simp
next
  case False
  have "0 \<le> r mod 12" by simp
  with False show ?thesis by simp
qed

lemma rem_shift_neg: "(- ((- r) mod 12) + 21) mod 12 = (r + 9) mod (12::int)"
proof -
  have "(- ((- r) mod 12) + 21) mod 12 = (- (- r) + 21) mod 12"
    by (metis mod_add_left_eq mod_minus_eq)
  also have "\<dots> = (r + 9 + 12) mod 12" by (rule arg_cong [where f = "\<lambda>x. x mod 12"]) arith
  also have "\<dots> = (r + 9) mod 12" by (simp only: mod_add_self2)
  finally show ?thesis .
qed

lemma rem_shift_pos: "(r mod 12 + 21) mod 12 = (r + 9) mod (12::int)"
proof -
  have "(r mod 12 + 21) mod 12 = (r + 21) mod 12"
    by (simp only: mod_add_left_eq)
  also have "\<dots> = (r + 9 + 12) mod 12" by (rule arg_cong [where f = "\<lambda>x. x mod 12"]) arith
  also have "\<dots> = (r + 9) mod 12" by (simp only: mod_add_self2)
  finally show ?thesis .
qed

lemma noteIndex_int:
  "js_rem (js_add (js_add (js_rem (Fin (of_int r)) (Fin 12)) (Fin 12)) (Fin 9)) (Fin 12) = Fin (of_int ((r + 9) mod 12))"
proof -
  define m where "m = (if r < 0 then - ((- r) mod 12) else r mod 12)"
  have m1: "\<not> m + 21 < 0" unfolding m_def by (rule rem_shift_nonneg)
  have m3: "(m + 21) mod 12 = (r + 9) mod 12" unfolding m_def using rem_shift_neg [of r] rem_shift_pos [of r] by simp
  have "js_rem (Fin (of_int r)) (Fin 12) = Fin (of_int m)"
    unfolding m_def by (rule js_rem_int_12)
  then have "js_add (js_add (js_rem (Fin (of_int r)) (Fin 12)) (Fin 12)) (Fin 9) = Fin (of_int (m + 21))"
    by simp
  moreover have "js_rem (Fin (of_int (m + 21))) (Fin 12) = Fin (of_int ((m + 21) mod 12))"
    using m1 by (simp only: js_rem_int_12 if_False)
  ultimately have "js_rem (js_add (js_add (js_rem (Fin (of_int r)) (Fin 12)) (Fin 12)) (Fin 9)) (Fin 12) = Fin (of_int ((m + 21) mod 12))"
    by (rule ssubst)
  then show ?thesis unfolding m3 .
qed

lemma octave_int:
  "js_add (js_floor (js_div (js_add (Fin (of_int r)) (Fin 9)) (Fin 12))) (Fin 4) = Fin (of_int ((r + 9) div 12 + 4))"
proof -
  have "\<lfloor>(of_int (r + 9) :: real) / 12\<rfloor> = (r + 9) div 12"
    using floor_divide_of_int_eq [of "r + 9" 12, where ?'a = real] by simp
  then show ?thesis by simp
qed

lemma frequencyToNote_fin:
  assumes "0 < f"
  defines "s \<equiv> 12 * log 2 (f / 440)"
  defines "r \<equiv> \<lfloor>s + 1 / 2\<rfloor>"
  shows "frequencyToNote (Num (Fin f)) =
           Some \<lparr> rd_note = js_index NOTE_NAMES (Fin (of_int ((r + 9) mod 12))),
                  rd_octave = Fin (of_int ((r + 9) div 12 + 4)),
                  rd_cents = Fin (of_int \<lfloor>(s - of_int r) * 100 + 1 / 2\<rfloor>),
                  rd_freq = Num (Fin f) \<rparr>"
proof -
  have g: "(\<not> js_truthy (Num (Fin f)) \<or> js_le (js_toNumber (Num (Fin f))) (Fin 0)) = False"
    using assms(1) by simp
  have sem: "js_mul (Fin 12) (js_log2 (js_div (js_toNumber (Num (Fin f))) (Fin 440))) = Fin s"
    using assms(1) by (simp add: js_log2_def js_log_def s_def)
  have rnd: "js_round (Fin s) = Fin (of_int r)"
    by (simp add: r_def)
  have c: "js_round (js_mul (js_sub (Fin s) (Fin (of_int r))) (Fin 100)) =
             Fin (of_int \<lfloor>(s - of_int r) * 100 + 1 / 2\<rfloor>)"
    by (simp add: js_sub_def)
  show ?thesis
    unfolding frequencyToNote_def Let_def
    by (simp only: g sem rnd c noteIndex_int octave_int if_False)
qed




section \<open>NoteMapper: claims\<close>



text \<open>
  Claim C10. For every input that is not a positive number (\<open>null\<close>, \<open>undefined\<close>, NaN, 0,
  a negative number, \<open>-Infinity\<close>), \<open>frequencyToNote\<close> returns \<open>null\<close>. The function has
  no path that throws: the model is a total function into \<open>option\<close>.
\<close>

theorem frequencyToNote_not_positive:
  assumes "\<not> js_lt (Fin 0) (js_toNumber v)"
  shows "frequencyToNote v = None"
proof (cases v)
  case Undefined
  then show ?thesis by (simp add: frequencyToNote_def)
next
  case Null
  then show ?thesis by (simp add: frequencyToNote_def)
next
  case (Num x)
  with assms show ?thesis by (cases x) (auto simp: frequencyToNote_def)
qed

text \<open>Witness for C10: \<open>null\<close>, \<open>undefined\<close>, NaN, 0 and \<open>-100\<close>, the inputs of the unit tests.\<close>

theorem frequencyToNote_not_positive_witness:
  "\<not> js_lt (Fin 0) (js_toNumber Null) \<and> frequencyToNote Null = None \<and>
   \<not> js_lt (Fin 0) (js_toNumber Undefined) \<and> frequencyToNote Undefined = None \<and>
   \<not> js_lt (Fin 0) (js_toNumber (Num NaN)) \<and> frequencyToNote (Num NaN) = None \<and>
   \<not> js_lt (Fin 0) (js_toNumber (Num (Fin 0))) \<and> frequencyToNote (Num (Fin 0)) = None \<and>
   \<not> js_lt (Fin 0) (js_toNumber (Num (Fin (- 100)))) \<and> frequencyToNote (Num (Fin (- 100))) = None"
  using frequencyToNote_not_positive [of Null] frequencyToNote_not_positive [of Undefined]
    frequencyToNote_not_positive [of "Num NaN"] frequencyToNote_not_positive [of "Num (Fin 0)"]
    frequencyToNote_not_positive [of "Num (Fin (- 100))"]
  by simp








section \<open>TuningEvaluator: claims\<close>

text \<open>
  Claim C8, as stated, fails when the activity flag is true and no note is displayed: the
  guard is \<open>!isActive || note === null\<close>, and the zone is Inactive whatever the cents are.
\<close>

theorem tuningStatus_inactive_without_note:
  "tuningStatus 0 True None = Inactive"
  by (simp add: tuningStatus_def)

text \<open>
  Claim C8, amended. The zone is Inactive when the flag is false or no note is displayed;
  otherwise it is InTune when \<open>|cents| \<le> 5\<close>, Close when \<open>5 < |cents| \<le> 15\<close> and Off when
  \<open>|cents| > 15\<close>, both boundaries inclusive.
\<close>

theorem tuningStatus_zones:
  "(\<not> isActive \<or> noteProp = None \<longrightarrow> tuningStatus cents isActive noteProp = Inactive) \<and>
   (isActive \<and> noteProp \<noteq> None \<longrightarrow>
      (tuningStatus cents isActive noteProp = InTune \<longleftrightarrow> \<bar>cents\<bar> \<le> 5) \<and>
      (tuningStatus cents isActive noteProp = Close \<longleftrightarrow> 5 < \<bar>cents\<bar> \<and> \<bar>cents\<bar> \<le> 15) \<and>
      (tuningStatus cents isActive noteProp = Off \<longleftrightarrow> 15 < \<bar>cents\<bar>) \<and>
      tuningStatus cents isActive noteProp \<noteq> Inactive)"
  by (auto simp: tuningStatus_def IN_TUNE_THRESHOLD_def CLOSE_THRESHOLD_def Let_def)

text \<open>Witness for C8: the boundary values 5, 6, 15 and 16, and the two inactive cases.\<close>

theorem tuningStatus_zones_witness:
  "tuningStatus 5 True (Some reading_A4) = InTune \<and> tuningStatus 6 True (Some reading_A4) = Close \<and>
   tuningStatus 15 True (Some reading_A4) = Close \<and> tuningStatus 16 True (Some reading_A4) = Off \<and>
   tuningStatus (- 5) True (Some reading_A4) = InTune \<and> tuningStatus (- 16) True (Some reading_A4) = Off \<and>
   tuningStatus 3 False (Some reading_A4) = Inactive \<and> tuningStatus 3 True None = Inactive"
  using tuningStatus_zones [of True "Some reading_A4" 5] tuningStatus_zones [of True "Some reading_A4" 6]
    tuningStatus_zones [of True "Some reading_A4" 15] tuningStatus_zones [of True "Some reading_A4" 16]
    tuningStatus_zones [of True "Some reading_A4" "- 5"] tuningStatus_zones [of True "Some reading_A4" "- 16"]
    tuningStatus_zones [of False "Some reading_A4" 3] tuningStatus_zones [of True None 3]
  by simp

subsection \<open>Nearest string\<close>

















section \<open>PitchDetector: claims\<close>

lemma sum_squares_replicate:
  "foldl (\<lambda>rms x. rms + x * x) a (replicate n c) = a + of_nat n * (c * c)" for a c :: real
  by (induction n arbitrary: a) (simp_all add: algebra_simps)

lemma sum_squares_zero:
  assumes "\<forall>x\<in>set buffer. x = 0"
  shows "foldl (\<lambda>rms x. rms + x * x) (0::real) buffer = 0"
proof -
  from assms have "buffer = replicate (length buffer) 0"
    by (simp add: replicate_length_same)
  then have "foldl (\<lambda>rms x. rms + x * x) (0::real) buffer =
      foldl (\<lambda>rms x. rms + x * x) 0 (replicate (length buffer) 0)" by simp
  also have "\<dots> = 0" by (simp only: sum_squares_replicate)
  finally show ?thesis .
qed

lemma frame_dbFS_silence:
  assumes "\<forall>x\<in>set buffer. x = 0" "buffer \<noteq> []"
  shows "frame_dbFS buffer = NInf"
  using assms(2)
  by (simp add: frame_dbFS_def frame_rms_def sum_squares_zero [OF assms(1)] js_log10_def js_log_def
      inf_of_sign_def)

lemma autocorrelate_empty: "autocorrelate [] sampleRate = ([], - 1, 0)"
  by (simp add: autocorrelate_def)

lemma frame_dbFS_empty: "frame_dbFS [] = NaN"
  by (simp add: frame_dbFS_def frame_rms_def js_log10_def js_log_def inf_of_sign_def)

lemma detectPitch_empty:
  "detectPitch [] ctx = \<lparr> detectedNote = None, detectedFreq = Null, clarity = - 1 \<rparr>"
  by (simp add: detectPitch_def Let_def frame_bestCorrelation_def autocorrelate_empty
      CLARITY_THRESHOLD_def frame_dbFS_empty)

lemma detectPitch_silence:
  assumes "\<forall>x\<in>set buffer. x = 0"
  shows "detectedNote (detectPitch buffer ctx) = None \<and> detectedFreq (detectPitch buffer ctx) = Null"
proof (cases "buffer = []")
  case True
  then show ?thesis by (simp add: detectPitch_empty)
next
  case False
  with assms have "frame_dbFS buffer = NInf" by (rule frame_dbFS_silence)
  then show ?thesis by (simp add: detectPitch_def VOLUME_THRESHOLD_def)
qed

lemma in_range_reading:
  assumes "js_gt fr (Fin 70)" "js_lt fr (Fin 1400)"
  shows "frequencyToNote (Num fr) \<noteq> None"
proof (cases fr)
  case (Fin x)
  with assms have "0 < x" by (simp add: js_gt_def)
  from frequencyToNote_fin [OF this] Fin show ?thesis by simp
qed (use assms in \<open>simp_all add: js_gt_def\<close>)

text \<open>
  Claim C7, amended. For every frame, \<open>detectPitch\<close> reports no note exactly when the level
  is below \<open>-40\<close> dBFS, or the best correlation is at most 0.85, or the frequency
  \<open>sampleRate / refinedPeriod\<close> is not strictly between 70 and 1400 Hz; otherwise it reports
  the note of that frequency, the frequency and the best correlation as clarity. An all-zero
  frame gives no note.
\<close>

theorem detectPitch_gates:
  fixes buffer :: "real list" and ctx :: "real option"
  defines "sampleRate \<equiv> sampleRate_of ctx"
  defines "best \<equiv> frame_bestCorrelation buffer sampleRate"
  defines "frequency \<equiv> frame_frequency buffer sampleRate"
  defines "result \<equiv> detectPitch buffer ctx"
  shows "(detectedNote result = None \<longleftrightarrow>
            js_lt (frame_dbFS buffer) (Fin (- 40)) \<or> best \<le> 85 / 100 \<or>
            \<not> (js_lt (Fin 70) frequency \<and> js_lt frequency (Fin 1400))) \<and>
         (detectedNote result \<noteq> None \<longrightarrow>
            detectedNote result = frequencyToNote (Num frequency) \<and>
            detectedFreq result = Num frequency \<and> clarity result = best) \<and>
         (detectedNote result = None \<longrightarrow> detectedFreq result = Null) \<and>
         ((\<forall>x\<in>set buffer. x = 0) \<longrightarrow> detectedNote result = None)"
proof -
  have rd: "frequencyToNote (Num frequency) \<noteq> None"
    if "js_lt (Fin 70) frequency" "js_lt frequency (Fin 1400)"
    using that in_range_reading [of frequency] by (simp add: js_gt_def)
  have 1: "detectedNote result = None \<longleftrightarrow>
            js_lt (frame_dbFS buffer) (Fin (- 40)) \<or> best \<le> 85 / 100 \<or>
            \<not> (js_lt (Fin 70) frequency \<and> js_lt frequency (Fin 1400))"
    using rd unfolding result_def detectPitch_def Let_def
    by (auto simp: VOLUME_THRESHOLD_def CLARITY_THRESHOLD_def js_gt_def
        best_def frequency_def sampleRate_def)
  have 2: "detectedNote result = frequencyToNote (Num frequency) \<and>
            detectedFreq result = Num frequency \<and> clarity result = best"
    if "detectedNote result \<noteq> None"
    using that unfolding result_def detectPitch_def Let_def
    by (auto simp: best_def frequency_def sampleRate_def split: if_splits)
  have 3: "detectedFreq result = Null" if "detectedNote result = None"
    using that rd unfolding result_def detectPitch_def Let_def
    by (auto simp: js_gt_def best_def frequency_def sampleRate_def split: if_splits)
  have 4: "detectedNote result = None" if "\<forall>x\<in>set buffer. x = 0"
    using that unfolding result_def by (simp add: detectPitch_silence)
  from 1 2 3 4 show ?thesis by blast
qed

subsection \<open>A constant full-scale frame\<close>

text \<open>
  On a frame whose samples are all 1 every lag has correlation 1, so the first lag searched
  wins and the interpolation moves it up by half a sample.
\<close>

lemma lag_sums_const_upto:
  fixes c :: real
  assumes "k + lag \<le> n"
  shows "foldl (\<lambda>(correlation, norm1, norm2) i.
              (correlation + replicate n c ! i * replicate n c ! (i + lag),
               norm1 + replicate n c ! i * replicate n c ! i,
               norm2 + replicate n c ! (i + lag) * replicate n c ! (i + lag)))
       (0, 0, 0) [0 ..< k] = (of_nat k * (c * c), of_nat k * (c * c), of_nat k * (c * c))"
  using assms by (induction k) (simp_all add: algebra_simps)

lemma lag_sums_const:
  fixes c :: real
  assumes "lag \<le> n"
  shows "lag_sums (replicate n c) lag =
           (of_nat (n - lag) * (c * c), of_nat (n - lag) * (c * c), of_nat (n - lag) * (c * c))"
  unfolding lag_sums_def using assms by (simp add: lag_sums_const_upto)

lemma lag_correlation_const:
  assumes "lag < n"
  shows "lag_correlation (replicate n 1) lag = 1"
proof -
  from assms have m: "0 < (of_nat (n - lag) :: real)" by simp
  have "lag_sums (replicate n (1::real)) lag = (of_nat (n - lag), of_nat (n - lag), of_nat (n - lag))"
    using assms lag_sums_const [of lag n 1] by simp
  then show ?thesis
    using m by (simp add: lag_correlation_def Let_def del: of_nat_diff)
qed

lemma lag_fold_flat:
  assumes "\<forall>lag. a \<le> lag \<and> lag < a + Suc k \<longrightarrow> lag_correlation buffer lag = 1"
  shows "\<exists>cs'. foldl (lag_step buffer) (cs, - 1, 0) [a ..< a + Suc k] = (cs', 1, a) \<and>
           (\<forall>j<length cs. cs' ! j = (if a \<le> j \<and> j < a + Suc k then 1 else cs ! j)) \<and>
           length cs' = length cs"
  using assms
proof (induction k)
  case 0
  then have "lag_correlation buffer a = 1" by simp
  then have "foldl (lag_step buffer) (cs, - 1, 0) [a ..< a + Suc 0] = (cs[a := 1], 1, a)"
    by (simp add: lag_step_def)
  moreover have "\<forall>j<length cs. cs[a := 1] ! j = (if a \<le> j \<and> j < a + Suc 0 then 1 else cs ! j)"
    by (auto simp: nth_list_update)
  ultimately show ?case by simp
next
  case (Suc k)
  then obtain cs' where cs': "foldl (lag_step buffer) (cs, - 1, 0) [a ..< a + Suc k] = (cs', 1, a)"
    "\<forall>j<length cs. cs' ! j = (if a \<le> j \<and> j < a + Suc k then 1 else cs ! j)"
    "length cs' = length cs"
    by auto
  from Suc.prems have c: "lag_correlation buffer (a + Suc k) = 1" by simp
  have "[a ..< a + Suc (Suc k)] = [a ..< a + Suc k] @ [a + Suc k]" by simp
  then have "foldl (lag_step buffer) (cs, - 1, 0) [a ..< a + Suc (Suc k)] =
      lag_step buffer (cs', 1, a) (a + Suc k)"
    using cs'(1) by (simp only: foldl_append) simp
  also have "\<dots> = (cs'[a + Suc k := 1], 1, a)"
    using c by (simp add: lag_step_def)
  finally have r: "foldl (lag_step buffer) (cs, - 1, 0) [a ..< a + Suc (Suc k)] =
      (cs'[a + Suc k := 1], 1, a)" .
  have "\<forall>j<length cs. cs'[a + Suc k := 1] ! j =
      (if a \<le> j \<and> j < a + Suc (Suc k) then 1 else cs ! j)"
  proof (intro allI impI)
    fix j assume j: "j < length cs"
    show "cs'[a + Suc k := 1] ! j = (if a \<le> j \<and> j < a + Suc (Suc k) then 1 else cs ! j)"
    proof (cases "j = a + Suc k")
      case True
      with j cs'(3) show ?thesis by simp
    next
      case False
      then have "cs'[a + Suc k := 1] ! j = cs' ! j" by simp
      with cs'(2) j False show ?thesis by (simp add: less_Suc_eq)
    qed
  qed
  with r cs'(3) show ?case by simp
qed

lemma frame_dbFS_full_scale: "frame_dbFS (replicate 4096 1) = Fin 0"
  by (simp add: frame_dbFS_def frame_rms_def sum_squares_replicate js_log10_def js_log_def)

lemma autocorrelate_flat:
  assumes mn: "minPeriod_of sampleRate = a" and mx: "min (maxPeriod_of sampleRate) n = a + Suc k"
    and n: "a + Suc k \<le> n"
  shows "\<exists>cs. autocorrelate (replicate n 1) sampleRate = (cs, 1, a) \<and>
          (\<forall>j<n. cs ! j = (if a \<le> j \<and> j < a + Suc k then 1 else 0))"
proof -
  have flat: "\<forall>lag. a \<le> lag \<and> lag < a + Suc k \<longrightarrow> lag_correlation (replicate n 1) lag = 1"
    using n by (auto intro!: lag_correlation_const)
  from lag_fold_flat [OF flat, of "replicate n 0"]
  obtain cs where cs: "foldl (lag_step (replicate n 1)) (replicate n 0, - 1, 0) [a ..< a + Suc k] = (cs, 1, a)"
    "\<forall>j<n. cs ! j = (if a \<le> j \<and> j < a + Suc k then 1 else replicate n 0 ! j)"
    by auto
  have "autocorrelate (replicate n 1) sampleRate = (cs, 1, a)"
    using cs(1) mx by (simp add: autocorrelate_def mn)
  moreover from cs(2) have "\<forall>j<n. cs ! j = (if a \<le> j \<and> j < a + Suc k then 1 else 0)"
    by simp
  ultimately show ?thesis by blast
qed

lemma frame_full_scale:
  assumes mn: "minPeriod_of sampleRate = Suc a" and mx: "min (maxPeriod_of sampleRate) n = Suc a + Suc (Suc k)"
    and n: "Suc a + Suc (Suc k) < n"
  shows "frame_bestCorrelation (replicate n 1) sampleRate = 1"
    and "frame_frequency (replicate n 1) sampleRate = js_div (Fin sampleRate) (Fin (of_nat (Suc a) + 1 / 2))"
proof -
  from n have n': "Suc a + Suc (Suc k) \<le> n" by simp
  from autocorrelate_flat [OF mn mx n'] obtain cs where
    ac: "autocorrelate (replicate n 1) sampleRate = (cs, 1, Suc a)"
    and cs: "\<forall>j<n. cs ! j = (if Suc a \<le> j \<and> j < Suc a + Suc (Suc k) then 1 else 0)" by blast
  from cs n have y: "cs ! a = 0" "cs ! Suc a = 1" "cs ! Suc (Suc a) = 1" by simp_all
  show "frame_bestCorrelation (replicate n 1) sampleRate = 1"
    by (simp add: frame_bestCorrelation_def ac)
  have "refinePeriod n cs (Suc a) = of_nat (Suc a) + 1 / 2"
    using n by (simp add: refinePeriod_def y Let_def)
  then show "frame_frequency (replicate n 1) sampleRate = js_div (Fin sampleRate) (Fin (of_nat (Suc a) + 1 / 2))"
    by (simp add: frame_frequency_def ac)
qed

lemma frame_full_scale_44100:
  "frame_bestCorrelation (replicate 4096 1) 44100 = 1"
  "frame_frequency (replicate 4096 1) 44100 = Fin 1400"
proof -
  have mn: "minPeriod_of 44100 = Suc 30" by (simp add: minPeriod_of_def)
  have mx: "min (maxPeriod_of 44100) 4096 = Suc 30 + Suc (Suc 597)" by (simp add: maxPeriod_of_def)
  have n: "Suc 30 + Suc (Suc 597) < (4096::nat)" by simp
  from frame_full_scale [OF mn mx n]
  show "frame_bestCorrelation (replicate 4096 1) 44100 = 1"
    "frame_frequency (replicate 4096 1) 44100 = Fin 1400" by simp_all
qed

lemma frame_full_scale_48000:
  "frame_bestCorrelation (replicate 4096 1) 48000 = 1"
  "frame_frequency (replicate 4096 1) 48000 = Fin (32000 / 23)"
proof -
  have mn: "minPeriod_of 48000 = Suc 33" by (simp add: minPeriod_of_def)
  have mx: "min (maxPeriod_of 48000) 4096 = Suc 33 + Suc (Suc 649)" by (simp add: maxPeriod_of_def)
  have n: "Suc 33 + Suc (Suc 649) < (4096::nat)" by simp
  from frame_full_scale [OF mn mx n]
  show "frame_bestCorrelation (replicate 4096 1) 48000 = 1"
    "frame_frequency (replicate 4096 1) 48000 = Fin (32000 / 23)" by simp_all
qed

text \<open>
  Claim C7, as stated (none only outside the closed range \<open>[70, 1400]\<close>), fails on a constant
  full-scale frame of 4096 samples at 44100 Hz: the level is 0 dBFS, the best correlation is
  1 and the frequency is \<open>44100 / 31.5 = 1400\<close>, inside the closed range, and no note is
  reported, because the test is \<open>frequency < 1400\<close>.
\<close>

theorem detectPitch_rejects_1400:
  "detectPitch (replicate 4096 1) (Some 44100) =
     \<lparr> detectedNote = None, detectedFreq = Null, clarity = 1 \<rparr> \<and>
   frame_dbFS (replicate 4096 1) = Fin 0 \<and>
   frame_bestCorrelation (replicate 4096 1) 44100 = 1 \<and>
   frame_frequency (replicate 4096 1) 44100 = Fin 1400"
proof -
  have "detectPitch (replicate 4096 1) (Some 44100) =
     \<lparr> detectedNote = None, detectedFreq = Null, clarity = 1 \<rparr>"
    by (simp add: detectPitch_def Let_def frame_dbFS_full_scale VOLUME_THRESHOLD_def
        sampleRate_of_def frame_full_scale_44100)
  with frame_dbFS_full_scale frame_full_scale_44100 show ?thesis by simp
qed

text \<open>
  Witness for C7: the same frame at 48000 Hz is reported (at \<open>48000 / 34.5\<close> Hz, clarity 1),
  and the all-zero frame is not.
\<close>

theorem detectPitch_gates_witness:
  "detectedNote (detectPitch (replicate 4096 1) (Some 48000)) \<noteq> None \<and>
   detectedFreq (detectPitch (replicate 4096 1) (Some 48000)) = Num (Fin (32000 / 23)) \<and>
   clarity (detectPitch (replicate 4096 1) (Some 48000)) = 1 \<and>
   detectedNote (detectPitch (replicate 4096 0) (Some 44100)) = None \<and>
   detectedFreq (detectPitch (replicate 4096 0) (Some 44100)) = Null"
proof -
  have sr: "sampleRate_of (Some 48000) = 48000" by (simp add: sampleRate_of_def)
  have a: "\<not> (js_lt (frame_dbFS (replicate 4096 1)) (Fin (- 40)) \<or>
              frame_bestCorrelation (replicate 4096 1) 48000 \<le> 85 / 100 \<or>
              \<not> (js_lt (Fin 70) (frame_frequency (replicate 4096 1) 48000) \<and>
                 js_lt (frame_frequency (replicate 4096 1) 48000) (Fin 1400)))"
    by (simp add: frame_dbFS_full_scale frame_full_scale_48000)
  from detectPitch_gates [of "replicate 4096 1" "Some 48000", unfolded sr] a
  have 1: "detectedNote (detectPitch (replicate 4096 1) (Some 48000)) \<noteq> None" by blast
  with detectPitch_gates [of "replicate 4096 1" "Some 48000", unfolded sr]
  have 2: "detectedFreq (detectPitch (replicate 4096 1) (Some 48000)) =
             Num (frame_frequency (replicate 4096 1) 48000)"
    "clarity (detectPitch (replicate 4096 1) (Some 48000)) = frame_bestCorrelation (replicate 4096 1) 48000"
    by blast+
  have z: "\<forall>x\<in>set (replicate 4096 (0::real)). x = 0" by simp
  with detectPitch_gates [of "replicate 4096 0" "Some 44100"]
  have 3: "detectedNote (detectPitch (replicate 4096 0) (Some 44100)) = None" by blast
  with detectPitch_gates [of "replicate 4096 0" "Some 44100"]
  have 4: "detectedFreq (detectPitch (replicate 4096 0) (Some 44100)) = Null" by blast
  from 1 2 3 4 show ?thesis by (simp add: frame_full_scale_48000)
qed

section \<open>NoteStabilizer: claims\<close>

text \<open>A single detection is displayed when its 80 ms timeout fires, not before.\<close>

lemma single_detection_after_80:
  "displayNote (tuner_after [(0, Some reading_A4, Num (Fin 440))] 79) = None \<and>
   displayNote (tuner_after [(0, Some reading_A4, Num (Fin 440))] 80) = Some reading_A4"
  by (simp add: tuner_after_def tuner_mounted_def pitch_update_def smoothing_effect_def
      smoothing_cleanup_def fire_due_def run_callback_def Let_def)

text \<open>
  Detections that change key at every update, each within 80 ms of the one before, are never
  displayed: every update clears the timeout of the one before and sets a new one.
\<close>

lemma holding_first:
  "holding (pitch_update (tuner_mounted 0) (now, Some d, f)) now (noteKey d)"
  by (simp add: holding_def tuner_mounted_def pitch_update_def smoothing_effect_def
      smoothing_cleanup_def fire_due_def run_callback_def Let_def)

lemma holding_step:
  assumes "holding t since k" "since \<le> now" "now < since + 80" "noteKey d \<noteq> k"
  shows "holding (pitch_update t (now, Some d, f)) now (noteKey d)"
  using assms
  by (auto simp: holding_def pitch_update_def smoothing_effect_def smoothing_cleanup_def
      fire_due_def Let_def)

lemma holding_fold:
  assumes "holding t since k" "flickering ((since, Some d0, f0) # es)" "noteKey d0 = k"
  shows "\<exists>d f. holding (foldl pitch_update t es) (fst (last ((since, Some d0, f0) # es))) (noteKey d) \<and>
            fst (snd (last ((since, Some d0, f0) # es))) = Some d"
  using assms
proof (induction es arbitrary: t since k d0 f0)
  case Nil
  then show ?case by auto
next
  case (Cons e es)
  obtain now dn f where e: "e = (now, dn, f)" by (cases e)
  from Cons.prems(2) e obtain d where d: "dn = Some d"
    by (cases es) auto
  from Cons.prems(2,3) e d have g: "since \<le> now" "now < since + 80" "noteKey d \<noteq> k"
    and fl: "flickering ((now, Some d, f) # es)"
    by auto
  from holding_step [OF Cons.prems(1) g] have h: "holding (pitch_update t e) now (noteKey d)"
    by (simp add: e d)
  from Cons.IH [OF h fl refl] show ?case by (simp add: e d)
qed

lemma flickering_never_displayed:
  assumes "flickering es" "es \<noteq> []" "now < fst (last es) + 80"
  shows "displayNote (tuner_after es now) = None"
proof -
  from assms(2) obtain e es' where es: "es = e # es'" by (cases es) auto
  obtain t0 dn f0 where e: "e = (t0, dn, f0)" by (cases e)
  from assms(1) es e obtain d0 where d0: "dn = Some d0" by (cases es') auto
  have "holding (pitch_update (tuner_mounted 0) (t0, Some d0, f0)) t0 (noteKey d0)"
    by (rule holding_first)
  from holding_fold [OF this, where ?d0.0 = d0 and ?f0.0 = f0 and es = es'] assms(1) es e d0
  obtain d where h: "holding (foldl pitch_update (tuner_mounted 0) es) (fst (last es)) (noteKey d)"
    by auto
  with assms(3) show ?thesis
    by (auto simp: tuner_after_def holding_def fire_due_def)
qed

text \<open>
  Claim C2. The claim says that a new key is displayed only after it has been detected
  continuously for 80 ms. The effect displays a detection at once when its key equals the
  hold buffer, and the buffer is set by the first detection of that key: the second
  detection of A4, 16 ms after the first, is displayed at 16 ms, while the first alone is not
  displayed at that time.
\<close>

theorem stabilizer_shows_before_hold_window:
  "displayNote (tuner_after [(0, Some reading_A4, Num (Fin 440)), (16, Some reading_A4, Num (Fin 440))] 16)
     = Some reading_A4 \<and>
   displayNote (tuner_after [(0, Some reading_A4, Num (Fin 440))] 16) = None"
  by (simp add: tuner_after_def tuner_mounted_def pitch_update_def smoothing_effect_def
      smoothing_cleanup_def fire_due_def run_callback_def Let_def)

section \<open>MetronomeScheduler: claims\<close>

lemma scheduler_loop_done:
  assumes "\<not> js_lt nextBeatTime (Fin (currentTime + 1 / 10))"
  shows "scheduler_loop currentTime secondsPerBeat beatsPerMeasure audible nextBeatTime beat played =
           Some (nextBeatTime, beat, played)"
  using assms by (subst scheduler_loop.simps) simp

lemma scheduler_loop_step:
  assumes "js_lt nextBeatTime (Fin (currentTime + 1 / 10))"
  shows "scheduler_loop currentTime secondsPerBeat beatsPerMeasure True nextBeatTime beat played =
           scheduler_loop currentTime secondsPerBeat beatsPerMeasure True
             (js_add nextBeatTime secondsPerBeat) (Suc beat)
             (played @ [\<lparr> beatIndex = beat,
                             isDownbeat = (beatsPerMeasure \<noteq> 0 \<and> beat mod beatsPerMeasure = 0),
                             scheduledTime = nextBeatTime \<rparr>])"
  using assms by (subst scheduler_loop.simps) simp


text \<open>
  Claim C3. The claim says that \<open>start()\<close> while running behaves as \<open>stop()\<close> followed by
  \<open>start()\<close> and never leaves two schedules active. \<open>start()\<close> does not clear the pending
  timer: after two calls the timers 2 and 4 are both pending (after \<open>stop()\<close> and \<open>start()\<close>
  only timer 4 is), both schedulers play a click for the same time when they fire, and a
  later \<open>stop()\<close> clears only the timer in \<open>timerRef\<close> and leaves timer 2 pending.
\<close>

theorem start_while_running_keeps_old_schedule:
  "\<exists>m1 m2 m3 m4 m5.
     start 80 4 0 metronome_init = Some m1 \<and>
     start 80 4 0 m1 = Some m2 \<and> map fst (pendingTimers m2) = [2, 4] \<and>
     start 80 4 0 (stop m1) = Some m3 \<and> map fst (pendingTimers m3) = [4] \<and>
     timer_fires 2 (1 / 40) m2 = Some m4 \<and> timer_fires 4 (1 / 40) m4 = Some m5 \<and>
     clicks m5 = [\<lparr> beatIndex = 0, isDownbeat = True, scheduledTime = Fin (1 / 10) \<rparr>,
                  \<lparr> beatIndex = 1, isDownbeat = False, scheduledTime = Fin (1 / 10) \<rparr>] \<and>
     map fst (pendingTimers (stop m2)) = [2]"
proof -
  define c1 where "c1 = \<lparr> sc_ctx = 1, sc_secondsPerBeat = Fin (3 / 4), sc_beatsPerMeasure = 4,
                          sc_nextBeatTime = Fin (1 / 10) \<rparr>"
  define c3 where "c3 = \<lparr> sc_ctx = 3, sc_secondsPerBeat = Fin (3 / 4), sc_beatsPerMeasure = 4,
                          sc_nextBeatTime = Fin (1 / 10) \<rparr>"
  define m1 where "m1 = \<lparr> audioContextRef = Some 1, timerRef = Some 2, beatRef = 0, isPlaying = True,
            pendingTimers = [(2, c1)], closedContexts = [], clicks = [], nextId = 3 \<rparr>"
  define m2 where "m2 = \<lparr> audioContextRef = Some 3, timerRef = Some 4, beatRef = 0, isPlaying = True,
            pendingTimers = [(2, c1), (4, c3)], closedContexts = [], clicks = [], nextId = 5 \<rparr>"
  define m3 where "m3 = \<lparr> audioContextRef = Some 3, timerRef = Some 4, beatRef = 0, isPlaying = True,
            pendingTimers = [(4, c3)], closedContexts = [1], clicks = [], nextId = 5 \<rparr>"
  define b0 where "b0 = \<lparr> beatIndex = 0, isDownbeat = True, scheduledTime = Fin (1 / 10) \<rparr>"
  define b1 where "b1 = \<lparr> beatIndex = 1, isDownbeat = False, scheduledTime = Fin (1 / 10) \<rparr>"
  define m4 where "m4 = \<lparr> audioContextRef = Some 3, timerRef = Some 5, beatRef = 1, isPlaying = True,
            pendingTimers = [(4, c3), (5, c1\<lparr> sc_nextBeatTime := Fin (17 / 20) \<rparr>)],
            closedContexts = [], clicks = [b0], nextId = 6 \<rparr>"
  define m5 where "m5 = \<lparr> audioContextRef = Some 3, timerRef = Some 6, beatRef = 2, isPlaying = True,
            pendingTimers = [(5, c1\<lparr> sc_nextBeatTime := Fin (17 / 20) \<rparr>),
                             (6, c3\<lparr> sc_nextBeatTime := Fin (17 / 20) \<rparr>)],
            closedContexts = [], clicks = [b0, b1], nextId = 7 \<rparr>"
  have a: "js_lt (Fin (1 / 10)) (Fin (1 / 40 + 1 / 10))" by simp
  have b: "\<not> js_lt (js_add (Fin (1 / 10)) (Fin (3 / 4))) (Fin (1 / 40 + 1 / 10))" by simp
  have loop: "scheduler_loop (1 / 40) (Fin (3 / 4)) 4 True (Fin (1 / 10)) beat played =
      Some (Fin (17 / 20), Suc beat,
            played @ [\<lparr> beatIndex = beat, isDownbeat = (beat mod 4 = 0), scheduledTime = Fin (1 / 10) \<rparr>])"
    for beat played
    by (simp only: scheduler_loop_step [OF a] scheduler_loop_done [OF b]) simp
  have e1: "start 80 4 0 metronome_init = Some m1"
    by (simp add: start_def metronome_init_def scheduler_def scheduler_loop_done Let_def m1_def c1_def)
  have e2: "start 80 4 0 m1 = Some m2"
    by (simp add: start_def scheduler_def scheduler_loop_done Let_def m1_def m2_def c3_def)
  have e3: "start 80 4 0 (stop m1) = Some m3"
    by (simp add: start_def stop_def clearTimeout_def scheduler_def scheduler_loop_done Let_def
        m1_def m3_def c3_def)
  have e4: "timer_fires 2 (1 / 40) m2 = Some m4"
    by (simp add: timer_fires_def clearTimeout_def scheduler_def loop m2_def m4_def c1_def b0_def)
  have e5: "timer_fires 4 (1 / 40) m4 = Some m5"
    by (simp add: timer_fires_def clearTimeout_def scheduler_def loop m4_def m5_def c3_def b1_def)
  have e6: "map fst (pendingTimers (stop m2)) = [2]"
    by (simp add: stop_def clearTimeout_def m2_def)
  have p2: "map fst (pendingTimers m2) = [2, 4]" and p3: "map fst (pendingTimers m3) = [4]"
    and c5: "clicks m5 = [\<lparr> beatIndex = 0, isDownbeat = True, scheduledTime = Fin (1 / 10) \<rparr>,
                  \<lparr> beatIndex = 1, isDownbeat = False, scheduledTime = Fin (1 / 10) \<rparr>]"
    by (simp_all add: m2_def m3_def m5_def b0_def b1_def)
  show ?thesis
    by (rule exI [of _ m1], rule exI [of _ m2], rule exI [of _ m3], rule exI [of _ m4],
        rule exI [of _ m5]) (intro conjI e1 e2 e3 e4 e5 e6 p2 p3 c5)
qed

subsection \<open>A run of the scheduler\<close>











end
